theory Spec2Isabelle
  imports Complex_Main
begin

section \<open>Data model\<close>

text \<open>
  The three tables of the relational store, as the Prisma schema printed in README.md
  declares them. Fields that several models share (\<open>id\<close>, \<open>userId\<close>, \<open>createdAt\<close>,
  \<open>updatedAt\<close>) carry the model's initial as a prefix; the others keep their names.
  Times are milliseconds since the epoch, the unit of \<open>Date.now()\<close>.
\<close>

type_synonym time = nat

datatype TaskStatus = PENDING | IN_PROGRESS | COMPLETED

record User =
  u_id :: string
  email :: string
  password :: string
  name :: string
  u_createdAt :: time
  u_updatedAt :: time

record Task =
  t_id :: string
  title :: string
  description :: "string option"
  status :: TaskStatus
  t_userId :: string
  t_createdAt :: time
  t_updatedAt :: time

record RefreshToken =
  rt_id :: string
  token :: string
  rt_userId :: string
  expiresAt :: time
  rt_createdAt :: time
  revoked :: bool

record db =
  users :: "User list"
  refreshTokens :: "RefreshToken list"
  tasks :: "Task list"

section \<open>The libraries the server calls\<close>

text \<open>
  jsonwebtoken, bcrypt, zod's e-mail pattern and Prisma's reading of a filter object are
  not code of this repository: they are parameters, and every theorem below that does not
  name a concrete library holds for all of them. \<open>jwt_sign payload secret expiresIn clock\<close>
  is \<open>jwt.sign({userId}, secret, {expiresIn})\<close> read at the given clock;
  \<open>jwt_verify token secret clock\<close> is \<open>jwt.verify\<close>, whose exceptions are the left
  summand. \<open>prisma_StringFilter kvs\<close> is what Prisma makes of an object given where
  a condition on a \<open>String\<close> column is expected: the predicate on the column's value
  that the filter stands for, or \<open>None\<close> when Prisma rejects the object. The two secrets
  come from the process environment.
\<close>

datatype jwt_error = JsonWebTokenError | TokenExpiredError | NotBeforeError

text \<open>The values a field of a JSON request body can hold.\<close>

datatype json =
    JNull
  | JBool bool
  | JNumber real
  | JString string
  | JArray "json list"
  | JObject "(string \<times> json) list"

record lib =
  jwt_sign :: "string \<Rightarrow> string \<Rightarrow> nat \<Rightarrow> time \<Rightarrow> string"
  jwt_verify :: "string \<Rightarrow> string \<Rightarrow> time \<Rightarrow> jwt_error + string"
  bcrypt_hash :: "string \<Rightarrow> nat \<Rightarrow> string \<Rightarrow> string"
  bcrypt_compare :: "string \<Rightarrow> string \<Rightarrow> bool"
  zod_email :: "string \<Rightarrow> bool"
  prisma_StringFilter :: "(string \<times> json) list \<Rightarrow> (string \<Rightarrow> bool) option"
  ACCESS_TOKEN_SECRET :: string
  REFRESH_TOKEN_SECRET :: string

text \<open>What one request draws from its environment: the clock, the uuids the store
  gives to the rows it inserts, the salt of bcrypt, and whether the connection to the
  store is lost once the request has committed a rotation (\<open>lookup_rejects\<close>): then the
  lookup of the user that follows the transaction in \<open>refresh\<close> rejects.\<close>

record draw =
  now :: time
  uuid_user :: string
  uuid_token :: string
  salt :: string
  lookup_rejects :: bool

subsection \<open>utils/jwt.ts\<close>

definition generateAccessToken :: "lib \<Rightarrow> string \<Rightarrow> time \<Rightarrow> string" where
  "generateAccessToken L userId clock = jwt_sign L userId (ACCESS_TOKEN_SECRET L) (15 * 60) clock"

definition generateRefreshToken :: "lib \<Rightarrow> string \<Rightarrow> time \<Rightarrow> string" where
  "generateRefreshToken L userId clock =
     jwt_sign L userId (REFRESH_TOKEN_SECRET L) (7 * 24 * 60 * 60) clock"

definition verifyAccessToken :: "lib \<Rightarrow> string \<Rightarrow> time \<Rightarrow> jwt_error + string" where
  "verifyAccessToken L tok clock = jwt_verify L tok (ACCESS_TOKEN_SECRET L) clock"

definition verifyRefreshToken :: "lib \<Rightarrow> string \<Rightarrow> time \<Rightarrow> jwt_error + string" where
  "verifyRefreshToken L tok clock = jwt_verify L tok (REFRESH_TOKEN_SECRET L) clock"

section \<open>The store: the Prisma calls the controllers make\<close>

text \<open>
  Each call is one atomic step on the store. A call that throws returns the left summand:
  one that the schema's constraints reject (primary key, \<open>@unique\<close>, the relation to
  \<open>User\<close>), an \<open>update\<close> when no row has the id, a call whose arguments Prisma does
  not accept (\<open>ValidationError\<close>, thrown before anything is sent to the store), and a call
  that finds the store unreachable (\<open>ConnectionError\<close>). The last is modelled for the one
  lookup that a handler makes after it has committed a write with nothing left to write:
  \<open>user_findUnique_id\<close> in \<open>refresh\<close>. Anywhere else a lost connection leaves the
  store as the failed call found it.
\<close>

datatype prisma_error =
  UniqueConstraint | ForeignKeyConstraint | RecordNotFound | ValidationError | ConnectionError

definition refreshToken_findUnique :: "db \<Rightarrow> string \<Rightarrow> RefreshToken option" where
  "refreshToken_findUnique d tok = find (\<lambda>r. token r = tok) (refreshTokens d)"

definition user_findUnique_email :: "db \<Rightarrow> string \<Rightarrow> User option" where
  "user_findUnique_email d e = find (\<lambda>u. email u = e) (users d)"

definition user_findUnique_id :: "draw \<Rightarrow> db \<Rightarrow> string \<Rightarrow> prisma_error + User option" where
  "user_findUnique_id w d i =
     (if lookup_rejects w then Inl ConnectionError else Inr (find (\<lambda>u. u_id u = i) (users d)))"

text \<open>
  The \<open>where\<close> of \<open>updateMany({where: {token: v}})\<close> for a JSON value \<open>v\<close>: a string
  selects the rows with that token, an object is read as a filter, and every other value
  is refused by Prisma's validation of the query.
\<close>

definition where_token :: "lib \<Rightarrow> json \<Rightarrow> (string \<Rightarrow> bool) option" where
  "where_token L v =
     (case v of
        JString s \<Rightarrow> Some (\<lambda>x. x = s)
      | JObject kvs \<Rightarrow> prisma_StringFilter L kvs
      | _ \<Rightarrow> None)"

definition set_revoked :: "RefreshToken \<Rightarrow> RefreshToken" where
  "set_revoked r = r\<lparr>revoked := True\<rparr>"

definition refreshToken_updateMany ::
    "(RefreshToken \<Rightarrow> bool) \<Rightarrow> (RefreshToken \<Rightarrow> RefreshToken) \<Rightarrow> db \<Rightarrow> db" where
  "refreshToken_updateMany wh upd d =
     d\<lparr>refreshTokens := map (\<lambda>r. if wh r then upd r else r) (refreshTokens d)\<rparr>"

definition refreshToken_update ::
    "string \<Rightarrow> (RefreshToken \<Rightarrow> RefreshToken) \<Rightarrow> db \<Rightarrow> prisma_error + db" where
  "refreshToken_update i upd d =
     (if i \<in> set (map rt_id (refreshTokens d))
      then Inr (refreshToken_updateMany (\<lambda>r. rt_id r = i) upd d)
      else Inl RecordNotFound)"

text \<open>\<open>create\<close> takes the three fields the controllers pass; \<open>id\<close>, \<open>createdAt\<close>
  and \<open>revoked\<close> get the schema's defaults (\<open>uuid()\<close>, \<open>now()\<close>, \<open>false\<close>).\<close>

definition new_refreshToken :: "draw \<Rightarrow> string \<Rightarrow> string \<Rightarrow> time \<Rightarrow> RefreshToken" where
  "new_refreshToken w tok uid ex =
     \<lparr>rt_id = uuid_token w, token = tok, rt_userId = uid, expiresAt = ex,
      rt_createdAt = now w, revoked = False\<rparr>"

definition refreshToken_create ::
    "draw \<Rightarrow> string \<Rightarrow> string \<Rightarrow> time \<Rightarrow> db \<Rightarrow> prisma_error + db" where
  "refreshToken_create w tok uid ex d =
     (if uuid_token w \<in> set (map rt_id (refreshTokens d)) then Inl UniqueConstraint
      else if tok \<in> set (map token (refreshTokens d)) then Inl UniqueConstraint
      else if uid \<notin> set (map u_id (users d)) then Inl ForeignKeyConstraint
      else Inr (d\<lparr>refreshTokens := refreshTokens d @ [new_refreshToken w tok uid ex]\<rparr>))"

definition new_user :: "draw \<Rightarrow> string \<Rightarrow> string \<Rightarrow> string \<Rightarrow> User" where
  "new_user w e p n =
     \<lparr>u_id = uuid_user w, email = e, password = p, name = n,
      u_createdAt = now w, u_updatedAt = now w\<rparr>"

definition user_create :: "draw \<Rightarrow> string \<Rightarrow> string \<Rightarrow> string \<Rightarrow> db \<Rightarrow> prisma_error + (User \<times> db)" where
  "user_create w e p n d =
     (if uuid_user w \<in> set (map u_id (users d)) then Inl UniqueConstraint
      else if e \<in> set (map email (users d)) then Inl UniqueConstraint
      else Inr (new_user w e p n, d\<lparr>users := users d @ [new_user w e p n]\<rparr>))"

text \<open>\<open>prisma.$transaction([q1, q2, ...])\<close>: the queries run in order on the store; the
  first one that throws aborts the batch, and the caller keeps the store it had.\<close>

fun transaction :: "(db \<Rightarrow> prisma_error + db) list \<Rightarrow> db \<Rightarrow> prisma_error + db" where
  "transaction [] d = Inr d"
| "transaction (q # qs) d = (case q d of Inl e \<Rightarrow> Inl e | Inr d' \<Rightarrow> transaction qs d')"

section \<open>controllers/authController.ts\<close>

datatype body =
    Message string
  | ZodErrors
  | Credentials string string string string string
  | TaskJson Task

text \<open>
  \<open>Credentials accessToken refreshToken id email name\<close> is the JSON of a successful
  register, login or refresh. An \<open>outcome\<close> is what a handler leaves behind: the
  response (status and body), the store, and \<open>observed\<close>: the contents of the store after
  each Prisma call the handler awaited, in order. Another request can read the store only
  between two such calls, so \<open>observed\<close> lists every state an interleaved request can
  see once the handler has started writing, and it is empty when the handler made no call.
\<close>

record outcome =
  response :: "nat \<times> body"
  store :: db
  observed :: "db list"

definition reply :: "nat \<Rightarrow> body \<Rightarrow> db \<Rightarrow> db list \<Rightarrow> outcome" where
  "reply st b d obs = \<lparr>response = (st, b), store = d, observed = obs\<rparr>"

definition seven_days :: nat where
  "seven_days = 7 * 24 * 60 * 60 * 1000"

record register_body =
  rb_email :: "string option"
  rb_password :: "string option"
  rb_name :: "string option"

definition registerSchema :: "lib \<Rightarrow> register_body \<Rightarrow> (string \<times> string \<times> string) option" where
  "registerSchema L b =
     (case (rb_email b, rb_password b, rb_name b) of
        (Some e, Some p, Some n) \<Rightarrow>
          if zod_email L e \<and> 6 \<le> length p \<and> 1 \<le> length n then Some (e, p, n) else None
      | _ \<Rightarrow> None)"

definition register :: "lib \<Rightarrow> draw \<Rightarrow> register_body \<Rightarrow> db \<Rightarrow> outcome" where
  "register L w b d =
     (case registerSchema L b of
        None \<Rightarrow> reply 400 ZodErrors d []
      | Some (e, p, n) \<Rightarrow>
          (case user_findUnique_email d e of
             Some existingUser \<Rightarrow> reply 400 (Message ''User already exists'') d [d]
           | None \<Rightarrow>
               (let hashedPassword = bcrypt_hash L p 10 (salt w) in
                case user_create w e hashedPassword n d of
                  Inl err \<Rightarrow> reply 500 (Message ''Internal server error'') d [d, d]
                | Inr (user, d1) \<Rightarrow>
                    (let accessToken = generateAccessToken L (u_id user) (now w);
                         refreshToken = generateRefreshToken L (u_id user) (now w)
                     in case refreshToken_create w refreshToken (u_id user) (now w + seven_days) d1 of
                          Inl err \<Rightarrow> reply 500 (Message ''Internal server error'') d1 [d, d1, d1]
                        | Inr d2 \<Rightarrow>
                            reply 201
                              (Credentials accessToken refreshToken (u_id user) (email user) (name user))
                              d2 [d, d1, d2]))))"

record login_body =
  lb_email :: "string option"
  lb_password :: "string option"

definition loginSchema :: "lib \<Rightarrow> login_body \<Rightarrow> (string \<times> string) option" where
  "loginSchema L b =
     (case (lb_email b, lb_password b) of
        (Some e, Some p) \<Rightarrow> if zod_email L e then Some (e, p) else None
      | _ \<Rightarrow> None)"

definition login :: "lib \<Rightarrow> draw \<Rightarrow> login_body \<Rightarrow> db \<Rightarrow> outcome" where
  "login L w b d =
     (case loginSchema L b of
        None \<Rightarrow> reply 400 ZodErrors d []
      | Some (e, p) \<Rightarrow>
          (case user_findUnique_email d e of
             None \<Rightarrow> reply 401 (Message ''Invalid credentials'') d [d]
           | Some user \<Rightarrow>
               if \<not> bcrypt_compare L p (password user)
               then reply 401 (Message ''Invalid credentials'') d [d]
               else
                 (let accessToken = generateAccessToken L (u_id user) (now w);
                      refreshToken = generateRefreshToken L (u_id user) (now w)
                  in case refreshToken_create w refreshToken (u_id user) (now w + seven_days) d of
                       Inl err \<Rightarrow> reply 500 (Message ''Internal server error'') d [d, d]
                     | Inr d1 \<Rightarrow>
                         reply 200
                           (Credentials accessToken refreshToken (u_id user) (email user) (name user))
                           d1 [d, d1])))"

text \<open>
  \<open>refresh\<close>: the body is \<open>Some t\<close> when \<open>refreshSchema\<close> accepts it (a string field
  \<open>refreshToken\<close>) and \<open>None\<close> otherwise. The branches follow the source: the early
  return when \<open>verifyRefreshToken\<close> throws, the lookup, the reuse branch with its inner
  test, the transaction of \<open>update\<close> and \<open>create\<close>, the lookup of the user with its 404,
  and the \<open>catch\<close> that turns every other exception into 500, also the one of the
  user lookup, which is thrown when the rotation is already committed.
\<close>

definition rotate :: "draw \<Rightarrow> RefreshToken \<Rightarrow> string \<Rightarrow> db \<Rightarrow> prisma_error + db" where
  "rotate w storedToken newRefreshToken d =
     transaction
       [refreshToken_update (rt_id storedToken) set_revoked,
        refreshToken_create w newRefreshToken (rt_userId storedToken) (now w + seven_days)] d"

definition refresh :: "lib \<Rightarrow> draw \<Rightarrow> string option \<Rightarrow> db \<Rightarrow> outcome" where
  "refresh L w b d =
     (case b of
        None \<Rightarrow> reply 400 ZodErrors d []
      | Some refreshToken \<Rightarrow>
          (case verifyRefreshToken L refreshToken (now w) of
             Inl err \<Rightarrow> reply 401 (Message ''Invalid refresh token'') d []
           | Inr decoded \<Rightarrow>
               (case refreshToken_findUnique d refreshToken of
                  None \<Rightarrow> reply 401 (Message ''Invalid or revoked refresh token'') d [d]
                | Some storedToken \<Rightarrow>
                    if revoked storedToken \<or> rt_userId storedToken \<noteq> decoded
                    then
                      (if rt_userId storedToken = decoded
                       then
                         (let d1 = refreshToken_updateMany (\<lambda>r. rt_userId r = decoded) set_revoked d
                          in reply 401 (Message ''Invalid or revoked refresh token'') d1 [d, d1])
                       else reply 401 (Message ''Invalid or revoked refresh token'') d [d])
                    else
                      (let newAccessToken = generateAccessToken L (rt_userId storedToken) (now w);
                           newRefreshToken = generateRefreshToken L (rt_userId storedToken) (now w)
                       in case rotate w storedToken newRefreshToken d of
                            Inl err \<Rightarrow> reply 500 (Message ''Internal server error'') d [d, d]
                          | Inr d1 \<Rightarrow>
                              (case user_findUnique_id w d1 (rt_userId storedToken) of
                                 Inl err \<Rightarrow> reply 500 (Message ''Internal server error'') d1 [d, d1, d1]
                               | Inr None \<Rightarrow> reply 404 (Message ''User not found'') d1 [d, d1, d1]
                               | Inr (Some user) \<Rightarrow>
                                   reply 200
                                     (Credentials newAccessToken newRefreshToken
                                        (u_id user) (email user) (name user))
                                     d1 [d, d1, d1])))))"

text \<open>
  \<open>logout\<close> reads \<open>req.body.refreshToken\<close> without a schema, so the argument is any
  JSON value, or \<open>None\<close> when the body (an object, as \<open>express.json()\<close> leaves it) has
  no such field. \<open>truthy\<close> is JavaScript's test \<open>if (refreshToken)\<close>. A value that
  passes it goes to \<open>updateMany\<close> as it is; when Prisma refuses it the \<open>catch\<close> answers
  500, and no call has reached the store.
\<close>

definition truthy :: "json \<Rightarrow> bool" where
  "truthy v =
     (case v of
        JNull \<Rightarrow> False
      | JBool b \<Rightarrow> b
      | JNumber x \<Rightarrow> x \<noteq> 0
      | JString s \<Rightarrow> s \<noteq> []
      | JArray xs \<Rightarrow> True
      | JObject kvs \<Rightarrow> True)"

definition logout :: "lib \<Rightarrow> json option \<Rightarrow> db \<Rightarrow> outcome" where
  "logout L b d =
     (case b of
        None \<Rightarrow> reply 200 (Message ''Logged out successfully'') d []
      | Some refreshToken \<Rightarrow>
          if \<not> truthy refreshToken then reply 200 (Message ''Logged out successfully'') d []
          else
            (case where_token L refreshToken of
               None \<Rightarrow> reply 500 (Message ''Internal server error'') d []
             | Some matches \<Rightarrow>
                 (let d1 = refreshToken_updateMany (\<lambda>r. matches (token r)) set_revoked d
                  in reply 200 (Message ''Logged out successfully'') d1 [d1])))"

text \<open>The four operations as requests, and a run of the server over a list of them.\<close>

datatype call =
    Register draw register_body
  | Login draw login_body
  | Refresh draw "string option"
  | Logout "json option"

fun serve :: "lib \<Rightarrow> call \<Rightarrow> db \<Rightarrow> outcome" where
  "serve L (Register w b) d = register L w b d"
| "serve L (Login w b) d = login L w b d"
| "serve L (Refresh w b) d = refresh L w b d"
| "serve L (Logout b) d = logout L b d"

fun serve_all :: "lib \<Rightarrow> call list \<Rightarrow> db \<Rightarrow> db" where
  "serve_all L [] d = d"
| "serve_all L (q # qs) d = serve_all L qs (store (serve L q d))"

section \<open>controllers/taskController.ts: toggleTask\<close>

text \<open>
  \<open>statusCycle\<close> is the lookup table of the source, a partial map as a JavaScript object
  is; \<open>newStatus\<close> is the lookup with its \<open>|| TaskStatus.PENDING\<close> fallback. The route
  runs behind \<open>authenticate\<close>, so \<open>userId\<close> is the string the middleware attached.
  \<open>update\<close> stamps \<open>updatedAt\<close> (the schema's \<open>@updatedAt\<close>).
\<close>

definition statusCycle :: "TaskStatus \<rightharpoonup> TaskStatus" where
  "statusCycle = [PENDING \<mapsto> IN_PROGRESS, IN_PROGRESS \<mapsto> COMPLETED, COMPLETED \<mapsto> PENDING]"

definition newStatus :: "TaskStatus \<Rightarrow> TaskStatus" where
  "newStatus s = (case statusCycle s of Some s' \<Rightarrow> s' | None \<Rightarrow> PENDING)"

definition task_findFirst :: "db \<Rightarrow> string \<Rightarrow> string \<Rightarrow> Task option" where
  "task_findFirst d i uid = find (\<lambda>t. t_id t = i \<and> t_userId t = uid) (tasks d)"

definition task_update ::
    "draw \<Rightarrow> string \<Rightarrow> (Task \<Rightarrow> Task) \<Rightarrow> db \<Rightarrow> prisma_error + (Task \<times> db)" where
  "task_update w i upd d =
     (case find (\<lambda>t. t_id t = i) (tasks d) of
        None \<Rightarrow> Inl RecordNotFound
      | Some t \<Rightarrow>
          Inr ((upd t)\<lparr>t_updatedAt := now w\<rparr>,
               d\<lparr>tasks := map (\<lambda>t. if t_id t = i then (upd t)\<lparr>t_updatedAt := now w\<rparr> else t)
                              (tasks d)\<rparr>))"

definition toggleTask :: "draw \<Rightarrow> string \<Rightarrow> string \<Rightarrow> db \<Rightarrow> outcome" where
  "toggleTask w userId i d =
     (case task_findFirst d i userId of
        None \<Rightarrow> reply 404 (Message ''Task not found'') d [d]
      | Some task \<Rightarrow>
          (case task_update w i (\<lambda>t. t\<lparr>status := newStatus (status task)\<rparr>) d of
             Inl err \<Rightarrow> reply 500 (Message ''Internal server error'') d [d, d]
           | Inr (updatedTask, d1) \<Rightarrow> reply 200 (TaskJson updatedTask) d1 [d, d1]))"

section \<open>client/src/lib/apiClient.ts: the refresh coordinator\<close>

text \<open>
  The browser runs one handler at a time, each to its next \<open>await\<close>. The model has one
  step per handler run: the response interceptor's error handler up to the refresh call
  (\<open>onResponseError\<close>), and its continuation once the refresh call has resolved or
  rejected (\<open>onRefreshResolved\<close>, \<open>onRefreshRejected\<close>), which includes the
  \<open>then\<close>-callbacks of the queued promises: they are microtasks, run before any other
  response is delivered. \<open>inflight\<close> lists the refresh calls that were posted and have not
  come back, each with the request whose handler is waiting for it; the source has no such
  variable, it is what the network holds. \<open>storedRefreshToken\<close> is what
  \<open>tokenManager.getRefreshToken()\<close> returns. \<open>req\<close> stands for the url, method and data of a
  request. A step returns the requests and rejections it issues.
\<close>

record request_config =
  req :: nat
  retry :: bool
  authorization :: "string option"

record client =
  accessToken :: "string option"
  storedRefreshToken :: "string option"
  isRefreshing :: bool
  failedQueue :: "request_config list"
  inflight :: "(request_config \<times> string) list"
  location :: "string option"

datatype action = Request request_config | PostRefresh string | Rejected request_config

datatype event =
    ResponseError "nat option" request_config
  | RefreshResolved nat string
  | RefreshRejected nat
  | SetTokens "string option" "string option"
  | ClearTokens

definition initial :: "string option \<Rightarrow> client" where
  "initial stored =
     \<lparr>accessToken = None, storedRefreshToken = stored, isRefreshing = False,
      failedQueue = [], inflight = [], location = None\<rparr>"

definition bearer :: "string \<Rightarrow> string" where
  "bearer t = ''Bearer '' @ t"

definition clearTokens :: "client \<Rightarrow> client" where
  "clearTokens c = c\<lparr>accessToken := None, storedRefreshToken := None\<rparr>"

text \<open>\<open>apiClient config\<close> sends the request through the request interceptor, which
  stamps the current access token on it when there is one.\<close>

definition apiClient :: "client \<Rightarrow> request_config \<Rightarrow> action" where
  "apiClient c config =
     (case accessToken c of
        None \<Rightarrow> Request config
      | Some t \<Rightarrow> if t = [] then Request config
                  else Request (config\<lparr>authorization := Some (bearer t)\<rparr>))"

definition processQueue :: "bool \<Rightarrow> string \<Rightarrow> client \<Rightarrow> client \<times> action list" where
  "processQueue err t c =
     (c\<lparr>failedQueue := []\<rparr>,
      map (\<lambda>originalRequest.
             if err then Rejected originalRequest
             else apiClient c (originalRequest\<lparr>authorization := Some (bearer t)\<rparr>))
          (failedQueue c))"

definition onResponseError :: "client \<Rightarrow> nat option \<Rightarrow> request_config \<Rightarrow> client \<times> action list" where
  "onResponseError c st originalRequest =
     (if st = Some 401 \<and> \<not> retry originalRequest then
        if isRefreshing c then (c\<lparr>failedQueue := failedQueue c @ [originalRequest]\<rparr>, [])
        else
          (let originalRequest' = originalRequest\<lparr>retry := True\<rparr>;
               c1 = c\<lparr>isRefreshing := True\<rparr>
           in case storedRefreshToken c1 of
                None \<Rightarrow> ((clearTokens c1)\<lparr>location := Some ''/login''\<rparr>, [Rejected originalRequest'])
              | Some stored \<Rightarrow>
                  if stored = []
                  then ((clearTokens c1)\<lparr>location := Some ''/login''\<rparr>, [Rejected originalRequest'])
                  else (c1\<lparr>inflight := inflight c1 @ [(originalRequest', stored)]\<rparr>,
                        [PostRefresh stored]))
      else (c, [Rejected originalRequest]))"

definition onRefreshResolved :: "client \<Rightarrow> nat \<Rightarrow> string \<Rightarrow> client \<times> action list" where
  "onRefreshResolved c i newAccessToken =
     (if i < length (inflight c) then
        (let originalRequest = fst (inflight c ! i);
             c1 = c\<lparr>accessToken := Some newAccessToken\<rparr>;
             (c2, replays) = processQueue False newAccessToken c1;
             retried = apiClient c2 (originalRequest\<lparr>authorization := Some (bearer newAccessToken)\<rparr>);
             c3 = c2\<lparr>isRefreshing := False,
                    inflight := take i (inflight c2) @ drop (Suc i) (inflight c2)\<rparr>
         in (c3, retried # replays))
      else (c, []))"

definition onRefreshRejected :: "client \<Rightarrow> nat \<Rightarrow> client \<times> action list" where
  "onRefreshRejected c i =
     (if i < length (inflight c) then
        (let originalRequest = fst (inflight c ! i);
             (c1, rejections) = processQueue True [] c;
             c2 = (clearTokens c1)\<lparr>location := Some ''/login''\<rparr>;
             c3 = c2\<lparr>isRefreshing := False,
                    inflight := take i (inflight c2) @ drop (Suc i) (inflight c2)\<rparr>
         in (c3, rejections @ [Rejected originalRequest]))
      else (c, []))"

text \<open>\<open>SetTokens\<close> and \<open>ClearTokens\<close> are the calls authService makes on
  \<open>tokenManager\<close> at login and logout.\<close>

fun step :: "client \<Rightarrow> event \<Rightarrow> client \<times> action list" where
  "step c (ResponseError st config) = onResponseError c st config"
| "step c (RefreshResolved i t) = onRefreshResolved c i t"
| "step c (RefreshRejected i) = onRefreshRejected c i"
| "step c (SetTokens a r) = (c\<lparr>accessToken := a, storedRefreshToken := r\<rparr>, [])"
| "step c ClearTokens = (clearTokens c, [])"

fun run :: "client \<Rightarrow> event list \<Rightarrow> client \<times> action list" where
  "run c [] = (c, [])"
| "run c (e # es) = (let (c1, as1) = step c e; (c2, as2) = run c1 es in (c2, as1 @ as2))"

section \<open>A concrete environment\<close>

text \<open>
  A small instance of the libraries, used where a theorem is applied to a concrete input.
  Like jsonwebtoken, \<open>toy_sign\<close> is a function of the payload, the secret and the issue
  time in whole seconds (the source passes no \<open>jwtid\<close>), and \<open>toy_verify\<close> rejects a
  token from \<open>exp = iat + expiresIn\<close> on. \<open>toy_verify\<close> knows the tokens of its table.
  \<open>toy_StringFilter\<close> reads the two filters \<open>{equals: s}\<close> and \<open>{not: s}\<close> as Prisma
  does and refuses every other object.
\<close>

fun digits :: "nat \<Rightarrow> string" where
  "digits n =
     (if n < 10 then [''0123456789'' ! n] else digits (n div 10) @ [''0123456789'' ! (n mod 10)])"

definition toy_jwt :: "string \<Rightarrow> string \<Rightarrow> nat \<Rightarrow> string" where
  "toy_jwt userId secret iat = secret @ ''.'' @ userId @ ''.'' @ digits iat"

definition toy_sign :: "string \<Rightarrow> string \<Rightarrow> nat \<Rightarrow> time \<Rightarrow> string" where
  "toy_sign userId secret expiresIn clock = toy_jwt userId secret (clock div 1000)"

definition toy_verify ::
    "(string \<times> nat \<times> nat) list \<Rightarrow> string \<Rightarrow> string \<Rightarrow> time \<Rightarrow> jwt_error + string" where
  "toy_verify issued tok secret clock =
     (case find (\<lambda>(userId, iat, expiresIn). toy_jwt userId secret iat = tok) issued of
        None \<Rightarrow> Inl JsonWebTokenError
      | Some (userId, iat, expiresIn) \<Rightarrow>
          if iat + expiresIn \<le> clock div 1000 then Inl TokenExpiredError else Inr userId)"

definition toy_StringFilter :: "(string \<times> json) list \<Rightarrow> (string \<Rightarrow> bool) option" where
  "toy_StringFilter kvs =
     (case kvs of
        [(k, JString s)] \<Rightarrow>
          if k = ''equals'' then Some (\<lambda>x. x = s)
          else if k = ''not'' then Some (\<lambda>x. x \<noteq> s)
          else None
      | _ \<Rightarrow> None)"

definition toy_lib :: lib where
  "toy_lib =
     \<lparr>jwt_sign = toy_sign,
      jwt_verify = toy_verify [(''u1'', 0, 604800), (''u1'', 5, 604800), (''u2'', 0, 604800)],
      bcrypt_hash = (\<lambda>p rounds s. s @ ''$'' @ p),
      bcrypt_compare = (\<lambda>p h. h = ''salt$'' @ p),
      zod_email = (\<lambda>e. CHR ''@'' \<in> set e),
      prisma_StringFilter = toy_StringFilter,
      ACCESS_TOKEN_SECRET = ''access-secret'',
      REFRESH_TOKEN_SECRET = ''refresh-secret''\<rparr>"

definition alice :: User where
  "alice = \<lparr>u_id = ''u1'', email = ''a@b.com'', password = ''salt$secret1'', name = ''A'',
            u_createdAt = 0, u_updatedAt = 0\<rparr>"

definition bob :: User where
  "bob = \<lparr>u_id = ''u2'', email = ''b@b.com'', password = ''salt$secret2'', name = ''B'',
          u_createdAt = 0, u_updatedAt = 0\<rparr>"

definition token_a0 :: RefreshToken where
  "token_a0 = \<lparr>rt_id = ''r1'', token = toy_jwt ''u1'' ''refresh-secret'' 0, rt_userId = ''u1'',
               expiresAt = 604800000, rt_createdAt = 0, revoked = True\<rparr>"

definition token_a5 :: RefreshToken where
  "token_a5 = \<lparr>rt_id = ''r2'', token = toy_jwt ''u1'' ''refresh-secret'' 5, rt_userId = ''u1'',
               expiresAt = 604805000, rt_createdAt = 5000, revoked = False\<rparr>"

definition token_b0 :: RefreshToken where
  "token_b0 = \<lparr>rt_id = ''r3'', token = toy_jwt ''u2'' ''refresh-secret'' 0, rt_userId = ''u2'',
               expiresAt = 604800000, rt_createdAt = 0, revoked = False\<rparr>"

definition task_1 :: Task where
  "task_1 = \<lparr>t_id = ''t1'', title = ''write'', description = None, status = PENDING,
             t_userId = ''u1'', t_createdAt = 0, t_updatedAt = 0\<rparr>"

definition demo_db :: db where
  "demo_db = \<lparr>users = [alice, bob], refreshTokens = [token_a0, token_a5, token_b0],
              tasks = [task_1]\<rparr>"

definition drawn_at :: "time \<Rightarrow> draw" where
  "drawn_at clock = \<lparr>now = clock, uuid_user = ''u9'', uuid_token = ''r9'', salt = ''salt'',
               lookup_rejects = False\<rparr>"

text \<open>Three requests that were sent with an access token that has expired since, and the
  client after the first of them has come back with 401: its refresh call is in flight.\<close>

definition req_a :: request_config where
  "req_a = \<lparr>req = 1, retry = False, authorization = Some ''Bearer old''\<rparr>"

definition req_b :: request_config where
  "req_b = \<lparr>req = 2, retry = False, authorization = Some ''Bearer old''\<rparr>"

definition req_c :: request_config where
  "req_c = \<lparr>req = 3, retry = False, authorization = Some ''Bearer old''\<rparr>"

definition busy_client :: client where
  "busy_client = fst (run (initial (Some ''rt'')) [ResponseError (Some 401) req_a])"

section \<open>Notions used in the statements\<close>

text \<open>\<open>revoke_where wh rs\<close> sets the flag on the rows that \<open>wh\<close> selects and leaves
  every other row as it is: what \<open>updateMany\<close> with \<open>data: {revoked: true}\<close> does to
  the table. \<open>evolves rs rs'\<close>: the table \<open>rs'\<close> still has every row of \<open>rs\<close> at its
  place, unchanged or with its flag set.\<close>

definition revoke_where :: "(RefreshToken \<Rightarrow> bool) \<Rightarrow> RefreshToken list \<Rightarrow> RefreshToken list" where
  "revoke_where wh rs = map (\<lambda>r. if wh r then r\<lparr>revoked := True\<rparr> else r) rs"

definition evolves :: "RefreshToken list \<Rightarrow> RefreshToken list \<Rightarrow> bool" where
  "evolves rs rs' \<longleftrightarrow>
     length rs \<le> length rs' \<and>
     (\<forall>i<length rs. rs' ! i = rs ! i \<or> rs' ! i = (rs ! i)\<lparr>revoked := True\<rparr>)"

text \<open>\<open>grows rs rs'\<close>: \<open>rs'\<close> is \<open>rs\<close> with some flags set, followed by rows
  that are not revoked.\<close>

definition grows :: "RefreshToken list \<Rightarrow> RefreshToken list \<Rightarrow> bool" where
  "grows rs rs' \<longleftrightarrow> (\<exists>wh new. rs' = revoke_where wh rs @ new \<and> list_all (\<lambda>r. \<not> revoked r) new)"

text \<open>\<open>single_flight c\<close>: at most one refresh call is in flight, and while one is,
  the flag \<open>isRefreshing\<close> is set.\<close>

definition single_flight :: "client \<Rightarrow> bool" where
  "single_flight c \<longleftrightarrow> length (inflight c) \<le> 1 \<and> (inflight c \<noteq> [] \<longrightarrow> isRefreshing c)"

section \<open>Properties of the session lifecycle\<close>

lemmas server_defs = refresh_def reply_def verifyRefreshToken_def generateAccessToken_def generateRefreshToken_def
  refreshToken_findUnique_def refreshToken_updateMany_def refreshToken_update_def refreshToken_create_def
  new_refreshToken_def rotate_def user_findUnique_id_def set_revoked_def seven_days_def Let_def
lemmas demo_defs = toy_lib_def toy_StringFilter_def toy_verify_def toy_sign_def toy_jwt_def demo_db_def alice_def bob_def
  token_a0_def token_a5_def token_b0_def task_1_def drawn_at_def

subsection \<open>The store\<close>

lemma revoke_where_maps [simp]:
  "map rt_id (revoke_where wh rs) = map rt_id rs"
  "map token (revoke_where wh rs) = map token rs"
  "map rt_userId (revoke_where wh rs) = map rt_userId rs"
  "length (revoke_where wh rs) = length rs"
  by (induction rs) (simp_all add: revoke_where_def)

lemma updateMany_revoke:
  "refreshToken_updateMany wh set_revoked d = d\<lparr>refreshTokens := revoke_where wh (refreshTokens d)\<rparr>"
  by (simp add: refreshToken_updateMany_def revoke_where_def set_revoked_def)

lemma rotate_eq:
  "rotate w st nt d =
     (if rt_id st \<notin> set (map rt_id (refreshTokens d)) then Inl RecordNotFound
      else if uuid_token w \<in> set (map rt_id (refreshTokens d)) then Inl UniqueConstraint
      else if nt \<in> set (map token (refreshTokens d)) then Inl UniqueConstraint
      else if rt_userId st \<notin> set (map u_id (users d)) then Inl ForeignKeyConstraint
      else Inr (d\<lparr>refreshTokens := revoke_where (\<lambda>r. rt_id r = rt_id st) (refreshTokens d)
                 @ [new_refreshToken w nt (rt_userId st) (now w + seven_days)]\<rparr>))"
  by (simp add: rotate_def refreshToken_update_def refreshToken_create_def updateMany_revoke del: set_map)

lemma find_u_id: "i \<in> set (map u_id us) \<Longrightarrow> \<exists>u. find (\<lambda>u. u_id u = i) us = Some u"
  by (induction us) auto

lemma find_token_mem: "find (\<lambda>r. token r = t) rs = Some r \<Longrightarrow> r \<in> set rs \<and> token r = t"
  by (induction rs) (auto split: if_splits)

lemma find_token_revoke_where:
  "find (\<lambda>r. token r = t) (revoke_where wh rs) =
     map_option (\<lambda>r. if wh r then r\<lparr>revoked := True\<rparr> else r) (find (\<lambda>r. token r = t) rs)"
  by (induction rs) (simp_all add: revoke_where_def)

lemma find_append_Some: "find P xs = Some x \<Longrightarrow> find P (xs @ ys) = Some x"
  by (induction xs) (auto split: if_splits)

text \<open>The outcome of refresh, branch by branch.\<close>

lemma refresh_unverified:
  "verifyRefreshToken L t (now w) = Inl e \<Longrightarrow>
   refresh L w (Some t) d = reply 401 (Message ''Invalid refresh token'') d []"
  by (simp add: refresh_def)

lemma refresh_unknown:
  "verifyRefreshToken L t (now w) = Inr u \<Longrightarrow> refreshToken_findUnique d t = None \<Longrightarrow>
   refresh L w (Some t) d = reply 401 (Message ''Invalid or revoked refresh token'') d [d]"
  by (simp add: refresh_def)

lemma refresh_foreign:
  "verifyRefreshToken L t (now w) = Inr u \<Longrightarrow> refreshToken_findUnique d t = Some st \<Longrightarrow>
   rt_userId st \<noteq> u \<Longrightarrow>
   refresh L w (Some t) d = reply 401 (Message ''Invalid or revoked refresh token'') d [d]"
  by (simp add: refresh_def)

lemma refresh_lockout:
  "verifyRefreshToken L t (now w) = Inr u \<Longrightarrow> refreshToken_findUnique d t = Some st \<Longrightarrow>
   rt_userId st = u \<Longrightarrow> revoked st \<Longrightarrow>
   refresh L w (Some t) d =
     reply 401 (Message ''Invalid or revoked refresh token'')
       (d\<lparr>refreshTokens := revoke_where (\<lambda>r. rt_userId r = u) (refreshTokens d)\<rparr>)
       [d, d\<lparr>refreshTokens := revoke_where (\<lambda>r. rt_userId r = u) (refreshTokens d)\<rparr>]"
  by (simp add: refresh_def updateMany_revoke Let_def)

lemma refresh_rotate_fail:
  "verifyRefreshToken L t (now w) = Inr u \<Longrightarrow> refreshToken_findUnique d t = Some st \<Longrightarrow>
   rt_userId st = u \<Longrightarrow> \<not> revoked st \<Longrightarrow>
   rotate w st (generateRefreshToken L u (now w)) d = Inl e \<Longrightarrow>
   refresh L w (Some t) d = reply 500 (Message ''Internal server error'') d [d, d]"
  by (simp add: refresh_def Let_def)

lemma refresh_rotate_ok:
  "verifyRefreshToken L t (now w) = Inr u \<Longrightarrow> refreshToken_findUnique d t = Some st \<Longrightarrow>
   rt_userId st = u \<Longrightarrow> \<not> revoked st \<Longrightarrow>
   rotate w st (generateRefreshToken L u (now w)) d = Inr d1 \<Longrightarrow> \<not> lookup_rejects w \<Longrightarrow>
   fst (response (refresh L w (Some t) d)) = 200
   \<and> store (refresh L w (Some t) d) = d1
   \<and> observed (refresh L w (Some t) d) = [d, d1, d1]"
  apply (simp add: refresh_def Let_def)
  apply (auto simp: reply_def rotate_eq user_findUnique_id_def split: if_splits option.splits
              simp del: set_map dest: find_u_id)
  done

lemma refresh_rotate_lost:
  "verifyRefreshToken L t (now w) = Inr u \<Longrightarrow> refreshToken_findUnique d t = Some st \<Longrightarrow>
   rt_userId st = u \<Longrightarrow> \<not> revoked st \<Longrightarrow>
   rotate w st (generateRefreshToken L u (now w)) d = Inr d1 \<Longrightarrow> lookup_rejects w \<Longrightarrow>
   refresh L w (Some t) d = reply 500 (Message ''Internal server error'') d1 [d, d1, d1]"
  by (simp add: refresh_def Let_def user_findUnique_id_def)

lemma refresh_rotated_store:
  assumes "verifyRefreshToken L t (now w) = Inr u" "refreshToken_findUnique d t = Some st"
    "rt_userId st = u" "\<not> revoked st" "rotate w st (generateRefreshToken L u (now w)) d = Inr d1"
  shows "store (refresh L w (Some t) d) = d1"
proof (cases "lookup_rejects w")
  case True
  from refresh_rotate_lost[OF assms True] show ?thesis by (simp add: reply_def)
next
  case False
  from refresh_rotate_ok[OF assms False] show ?thesis by simp
qed

lemma refresh_cases:
  obtains (invalid) e where "verifyRefreshToken L t (now w) = Inl e"
  | (unknown) u where "verifyRefreshToken L t (now w) = Inr u" "refreshToken_findUnique d t = None"
  | (foreign) u st where "verifyRefreshToken L t (now w) = Inr u" "refreshToken_findUnique d t = Some st" "rt_userId st \<noteq> u"
  | (reuse) u st where "verifyRefreshToken L t (now w) = Inr u" "refreshToken_findUnique d t = Some st" "rt_userId st = u" "revoked st"
  | (rejected) u st e where "verifyRefreshToken L t (now w) = Inr u" "refreshToken_findUnique d t = Some st" "rt_userId st = u" "\<not> revoked st"
       "rotate w st (generateRefreshToken L u (now w)) d = Inl e"
  | (rotated) u st d1 where "verifyRefreshToken L t (now w) = Inr u" "refreshToken_findUnique d t = Some st" "rt_userId st = u" "\<not> revoked st"
       "rotate w st (generateRefreshToken L u (now w)) d = Inr d1"
proof (cases "verifyRefreshToken L t (now w)")
  case (Inl e) then show ?thesis by (rule invalid)
next
  case (Inr u)
  show ?thesis
  proof (cases "refreshToken_findUnique d t")
    case None with Inr show ?thesis by (rule unknown)
  next
    case (Some st)
    show ?thesis
    proof (cases "rt_userId st = u")
      case False with Inr Some show ?thesis by (intro foreign)
    next
      case True
      show ?thesis
      proof (cases "revoked st")
        case True with Inr Some \<open>rt_userId st = u\<close> show ?thesis by (intro reuse)
      next
        case False
        show ?thesis
          by (cases "rotate w st (generateRefreshToken L u (now w)) d")
             (use Inr Some True False in \<open>auto intro: rejected rotated\<close>)
      qed
    qed
  qed
qed

text \<open>
  C4. A token that \<open>jwt.verify\<close> rejects against the refresh secret, for a bad
  signature or for an expiry in the past, is answered 401 ``Invalid refresh token''; the
  handler has made no call on the store (\<open>observed\<close> is empty), and the store is the one
  it was: no row of any user is revoked, so no lockout.
\<close>

theorem refresh_unverified_no_lookup:
  assumes "jwt_verify L t (REFRESH_TOKEN_SECRET L) (now w) = Inl e"
  shows "response (refresh L w (Some t) d) = (401, Message ''Invalid refresh token'')
       \<and> observed (refresh L w (Some t) d) = []
       \<and> store (refresh L w (Some t) d) = d"
  using assms by (simp add: refresh_def verifyRefreshToken_def reply_def)

theorem refresh_unverified_no_lookup_witness:
  "jwt_verify toy_lib ''forged'' (REFRESH_TOKEN_SECRET toy_lib) (now (drawn_at 10000)) = Inl JsonWebTokenError
   \<and> jwt_verify toy_lib (token token_a0) (REFRESH_TOKEN_SECRET toy_lib) (now (drawn_at 604800000)) = Inl TokenExpiredError
   \<and> response (refresh toy_lib (drawn_at 10000) (Some ''forged'') demo_db) = (401, Message ''Invalid refresh token'')
   \<and> observed (refresh toy_lib (drawn_at 604800000) (Some (token token_a0)) demo_db) = []
   \<and> store (refresh toy_lib (drawn_at 604800000) (Some (token token_a0)) demo_db) = demo_db"
proof -
  have a: "jwt_verify toy_lib ''forged'' (REFRESH_TOKEN_SECRET toy_lib) (now (drawn_at 10000)) = Inl JsonWebTokenError"
    by (simp add: demo_defs)
  have b: "jwt_verify toy_lib (token token_a0) (REFRESH_TOKEN_SECRET toy_lib) (now (drawn_at 604800000)) = Inl TokenExpiredError"
    by (simp add: demo_defs)
  show ?thesis
    using a b refresh_unverified_no_lookup [OF a, of demo_db] refresh_unverified_no_lookup [OF b, of demo_db]
    by simp
qed

text \<open>
  C10. When the lockout fires (the token verifies for user \<open>u\<close>, its row belongs to
  \<open>u\<close> and is revoked), the store after the call differs from the store before only in
  the flags of the rows of \<open>u\<close>: the users and the tasks are the same, the refresh-token
  table is the old one with the flag set on the rows whose owner is \<open>u\<close>, and every row of
  another owner is still there as it was.
\<close>

theorem lockout_frame:
  assumes "verifyRefreshToken L t (now w) = Inr u"
      and "refreshToken_findUnique d t = Some st"
      and "rt_userId st = u" and "revoked st"
  shows "users (store (refresh L w (Some t) d)) = users d
       \<and> tasks (store (refresh L w (Some t) d)) = tasks d
       \<and> refreshTokens (store (refresh L w (Some t) d))
           = map (\<lambda>r. if rt_userId r = u then r\<lparr>revoked := True\<rparr> else r) (refreshTokens d)
       \<and> (\<forall>r\<in>set (refreshTokens d). rt_userId r \<noteq> u \<longrightarrow> r \<in> set (refreshTokens (store (refresh L w (Some t) d))))"
  using assms by (auto simp add: refresh_lockout reply_def revoke_where_def)

theorem lockout_frame_witness:
  "verifyRefreshToken toy_lib (token token_a0) (now (drawn_at 10000)) = Inr ''u1''
   \<and> refreshTokens (store (refresh toy_lib (drawn_at 10000) (Some (token token_a0)) demo_db))
       = [token_a0, token_a5\<lparr>revoked := True\<rparr>, token_b0]
   \<and> users (store (refresh toy_lib (drawn_at 10000) (Some (token token_a0)) demo_db)) = [alice, bob]
   \<and> tasks (store (refresh toy_lib (drawn_at 10000) (Some (token token_a0)) demo_db)) = [task_1]"
proof -
  have a: "verifyRefreshToken toy_lib (token token_a0) (now (drawn_at 10000)) = Inr ''u1''"
    by (simp add: verifyRefreshToken_def demo_defs)
  have b: "refreshToken_findUnique demo_db (token token_a0) = Some token_a0"
    by (simp add: refreshToken_findUnique_def demo_defs)
  have c: "rt_userId token_a0 = ''u1''" "revoked token_a0" by (simp_all add: token_a0_def)
  from lockout_frame [OF a b c] a show ?thesis
    by (simp add: demo_db_def token_a0_def token_a5_def token_b0_def)
qed

lemma refresh_revoked_record_rejected:
  assumes "refreshToken_findUnique d t = Some st" and "revoked st"
  shows "fst (response (refresh L w (Some t) d)) = 401"
proof (cases rule: refresh_cases[where L=L and t=t and w=w and d=d])
  case (invalid e)
  then show ?thesis by (simp add: refresh_unverified reply_def)
next
  case (unknown u)
  then show ?thesis by (simp add: refresh_unknown reply_def)
next
  case (foreign u st)
  then show ?thesis by (simp add: refresh_foreign reply_def)
next
  case (reuse u st)
  then show ?thesis by (simp add: refresh_lockout reply_def)
next
  case (rejected u st' e)
  with assms show ?thesis by simp
next
  case (rotated u st' d1)
  with assms show ?thesis by simp
qed

text \<open>
  C1, amended. Presenting the token of a revoked row, while the token still verifies
  (signature and expiry) with the row's owner as its signed user, is answered 401
  ``Invalid or revoked refresh token''; before that the handler has set the flag on every
  row of that owner, and refreshing with any other stored token of the owner afterwards is
  answered 401 as well.
\<close>

theorem refresh_reuse_lockout:
  assumes "refreshToken_findUnique d t = Some r" and "revoked r"
      and "verifyRefreshToken L t (now w) = Inr (rt_userId r)"
  shows "response (refresh L w (Some t) d) = (401, Message ''Invalid or revoked refresh token'')
       \<and> refreshTokens (store (refresh L w (Some t) d))
           = map (\<lambda>x. if rt_userId x = rt_userId r then x\<lparr>revoked := True\<rparr> else x) (refreshTokens d)
       \<and> (\<forall>x\<in>set (refreshTokens (store (refresh L w (Some t) d))). rt_userId x = rt_userId r \<longrightarrow> revoked x)
       \<and> (\<forall>t3 r3 w3. refreshToken_findUnique d t3 = Some r3 \<and> rt_userId r3 = rt_userId r \<longrightarrow>
            fst (response (refresh L w3 (Some t3) (store (refresh L w (Some t) d)))) = 401)"
proof -
  let ?d1 = "d\<lparr>refreshTokens := revoke_where (\<lambda>x. rt_userId x = rt_userId r) (refreshTokens d)\<rparr>"
  have out: "refresh L w (Some t) d =
      reply 401 (Message ''Invalid or revoked refresh token'') ?d1 [d, ?d1]"
    using assms by (intro refresh_lockout) simp_all
  have third: "fst (response (refresh L w3 (Some t3) ?d1)) = 401"
    if "refreshToken_findUnique d t3 = Some r3" "rt_userId r3 = rt_userId r" for t3 r3 w3
  proof -
    have "refreshToken_findUnique ?d1 t3 = Some (r3\<lparr>revoked := True\<rparr>)"
      using that by (simp add: refreshToken_findUnique_def find_token_revoke_where)
    then show ?thesis by (rule refresh_revoked_record_rejected) simp
  qed
  show ?thesis
    using third by (auto simp: out reply_def revoke_where_def)
qed

theorem refresh_reuse_lockout_witness:
  "refreshToken_findUnique demo_db (token token_a0) = Some token_a0 \<and> revoked token_a0
   \<and> verifyRefreshToken toy_lib (token token_a0) (now (drawn_at 10000)) = Inr (rt_userId token_a0)
   \<and> response (refresh toy_lib (drawn_at 10000) (Some (token token_a0)) demo_db)
       = (401, Message ''Invalid or revoked refresh token'')
   \<and> refreshTokens (store (refresh toy_lib (drawn_at 10000) (Some (token token_a0)) demo_db))
       = [token_a0, token_a5\<lparr>revoked := True\<rparr>, token_b0]
   \<and> fst (response (refresh toy_lib (drawn_at 20000) (Some (token token_a5))
             (store (refresh toy_lib (drawn_at 10000) (Some (token token_a0)) demo_db)))) = 401"
proof -
  have a: "refreshToken_findUnique demo_db (token token_a0) = Some token_a0"
    by (simp add: refreshToken_findUnique_def demo_defs)
  have b: "revoked token_a0" by (simp add: token_a0_def)
  have c: "verifyRefreshToken toy_lib (token token_a0) (now (drawn_at 10000)) = Inr (rt_userId token_a0)"
    by (simp add: verifyRefreshToken_def demo_defs)
  have e: "refreshToken_findUnique demo_db (token token_a5) = Some token_a5 \<and> rt_userId token_a5 = rt_userId token_a0"
    by (simp add: refreshToken_findUnique_def demo_defs)
  note th = refresh_reuse_lockout [OF a b c]
  from th have 1: "response (refresh toy_lib (drawn_at 10000) (Some (token token_a0)) demo_db)
       = (401, Message ''Invalid or revoked refresh token'')" by blast
  from th have 2: "refreshTokens (store (refresh toy_lib (drawn_at 10000) (Some (token token_a0)) demo_db))
       = [token_a0, token_a5\<lparr>revoked := True\<rparr>, token_b0]"
    by (simp add: demo_db_def token_a0_def token_a5_def token_b0_def)
  from th e have 3: "fst (response (refresh toy_lib (drawn_at 20000) (Some (token token_a5))
             (store (refresh toy_lib (drawn_at 10000) (Some (token token_a0)) demo_db)))) = 401" by blast
  from a b c 1 2 3 show ?thesis by simp
qed

text \<open>
  C1 as stated fails for a revoked token that no longer verifies. The token of
  \<open>token_a0\<close> was issued at second 0 and is presented at second 604800, its expiry: the
  answer is 401, but the handler returns before it reads the store, nothing is revoked,
  and the owner's other token \<open>token_a5\<close> still refreshes with 200.
\<close>

theorem refresh_expired_revoked_no_lockout:
  "refreshToken_findUnique demo_db (token token_a0) = Some token_a0 \<and> revoked token_a0
   \<and> refresh toy_lib (drawn_at 604800000) (Some (token token_a0)) demo_db
       = reply 401 (Message ''Invalid refresh token'') demo_db []
   \<and> refreshToken_findUnique demo_db (token token_a5) = Some token_a5
   \<and> rt_userId token_a5 = rt_userId token_a0 \<and> \<not> revoked token_a5
   \<and> fst (response (refresh toy_lib (drawn_at 604800000) (Some (token token_a5))
             (store (refresh toy_lib (drawn_at 604800000) (Some (token token_a0)) demo_db)))) = 200"
  by (simp add: server_defs demo_defs)

lemma find_token_rotated:
  "find (\<lambda>r. token r = t) rs = Some st \<Longrightarrow>
   find (\<lambda>r. token r = t) (revoke_where (\<lambda>r. rt_id r = rt_id st) rs @ [n]) = Some (st\<lparr>revoked := True\<rparr>)"
  by (simp add: find_append_Some find_token_revoke_where)

lemma rotate_accepted:
  assumes "refreshToken_findUnique d t = Some st"
      and "uuid_token w \<notin> set (map rt_id (refreshTokens d))"
      and "nt \<notin> set (map token (refreshTokens d))"
      and "rt_userId st \<in> set (map u_id (users d))"
  shows "rotate w st nt d =
     Inr (d\<lparr>refreshTokens :=
             map (\<lambda>r. if rt_id r = rt_id st then r\<lparr>revoked := True\<rparr> else r) (refreshTokens d)
             @ [\<lparr>rt_id = uuid_token w, token = nt, rt_userId = rt_userId st,
                 expiresAt = now w + 7 * 24 * 60 * 60 * 1000, rt_createdAt = now w,
                 revoked = False\<rparr>]\<rparr>)"
proof -
  have "rt_id st \<in> set (map rt_id (refreshTokens d))"
    using assms(1) by (auto simp: refreshToken_findUnique_def dest: find_token_mem)
  with assms(2-4) show ?thesis
    by (simp add: rotate_eq revoke_where_def new_refreshToken_def seven_days_def del: set_map)
qed

lemma rotate_same_token_rejected:
  assumes "refreshToken_findUnique d t = Some st"
  shows "\<exists>e. rotate w st t d = Inl e"
proof -
  have "t \<in> set (map token (refreshTokens d))"
    using assms by (auto simp: refreshToken_findUnique_def dest: find_token_mem)
  then show ?thesis by (simp add: rotate_eq del: set_map)
qed

text \<open>
  When the token verifies for \<open>u\<close> and matches a row of \<open>u\<close> that is not revoked, the
  constraints of the store accept the insert and the store stays reachable, the refresh
  is answered 200 and has made both writes: the flag is set on the matched row and one
  row is added for the minted token, not revoked, with \<open>expiresAt = now + 7 days\<close>.
\<close>

lemma refresh_rotates:
  assumes "verifyRefreshToken L t (now w) = Inr u"
      and "refreshToken_findUnique d t = Some st"
      and "rt_userId st = u" and "\<not> revoked st"
      and "uuid_token w \<notin> set (map rt_id (refreshTokens d))"
      and "generateRefreshToken L u (now w) \<notin> set (map token (refreshTokens d))"
      and "u \<in> set (map u_id (users d))"
      and "\<not> lookup_rejects w"
  shows "fst (response (refresh L w (Some t) d)) = 200
       \<and> store (refresh L w (Some t) d)
           = d\<lparr>refreshTokens :=
                 map (\<lambda>r. if rt_id r = rt_id st then r\<lparr>revoked := True\<rparr> else r) (refreshTokens d)
                 @ [\<lparr>rt_id = uuid_token w, token = generateRefreshToken L u (now w), rt_userId = u,
                     expiresAt = now w + 7 * 24 * 60 * 60 * 1000, rt_createdAt = now w,
                     revoked = False\<rparr>]\<rparr>"
proof -
  have rot: "rotate w st (generateRefreshToken L u (now w)) d =
     Inr (d\<lparr>refreshTokens :=
             map (\<lambda>r. if rt_id r = rt_id st then r\<lparr>revoked := True\<rparr> else r) (refreshTokens d)
             @ [\<lparr>rt_id = uuid_token w, token = generateRefreshToken L u (now w), rt_userId = rt_userId st,
                 expiresAt = now w + 7 * 24 * 60 * 60 * 1000, rt_createdAt = now w,
                 revoked = False\<rparr>]\<rparr>)"
    using assms(2,3,5,6,7) by (intro rotate_accepted) simp_all
  from refresh_rotate_ok[OF assms(1-4) rot assms(8)] assms(3)
  show ?thesis by simp
qed

text \<open>
  C2 fails on the code. \<open>generateRefreshToken\<close> signs \<open>{userId}\<close> with no \<open>jwtid\<close>, so
  the minted string depends on the user, the secret and the clock only. Whenever it comes
  out equal to the presented token (with jsonwebtoken: a refresh within the second in
  which the presented token was signed), the insert of the ``new'' row violates
  \<open>token @unique\<close>, the transaction is rolled back, and a refresh whose token verifies and
  matches a row that is not revoked is answered 500: the row is not revoked, no row is
  inserted, and the store is as it was.
\<close>

theorem refresh_same_second_rejected:
  assumes "verifyRefreshToken L t (now w) = Inr u"
      and "refreshToken_findUnique d t = Some st"
      and "rt_userId st = u" and "\<not> revoked st"
      and "generateRefreshToken L u (now w) = t"
  shows "response (refresh L w (Some t) d) = (500, Message ''Internal server error'')
       \<and> store (refresh L w (Some t) d) = d
       \<and> refreshToken_findUnique (store (refresh L w (Some t) d)) t = Some st"
proof -
  from rotate_same_token_rejected[OF assms(2), of w]
  obtain e where "rotate w st t d = Inl e" ..
  then have "rotate w st (generateRefreshToken L u (now w)) d = Inl e"
    by (simp add: assms(5))
  from refresh_rotate_fail[OF assms(1-4) this] assms(2)
  show ?thesis by (simp add: reply_def)
qed

theorem refresh_same_second_rejected_witness:
  "verifyRefreshToken toy_lib (token token_a5) (now (drawn_at 5999)) = Inr ''u1''
   \<and> refreshToken_findUnique demo_db (token token_a5) = Some token_a5
   \<and> rt_userId token_a5 = ''u1'' \<and> \<not> revoked token_a5
   \<and> generateRefreshToken toy_lib ''u1'' (now (drawn_at 5999)) = token token_a5
   \<and> response (refresh toy_lib (drawn_at 5999) (Some (token token_a5)) demo_db)
       = (500, Message ''Internal server error'')
   \<and> store (refresh toy_lib (drawn_at 5999) (Some (token token_a5)) demo_db) = demo_db"
proof -
  have a: "verifyRefreshToken toy_lib (token token_a5) (now (drawn_at 5999)) = Inr ''u1''"
    by (simp add: verifyRefreshToken_def demo_defs)
  have b: "refreshToken_findUnique demo_db (token token_a5) = Some token_a5"
    by (simp add: refreshToken_findUnique_def demo_defs)
  have c: "rt_userId token_a5 = ''u1''" "\<not> revoked token_a5" by (simp_all add: token_a5_def)
  have e: "generateRefreshToken toy_lib ''u1'' (now (drawn_at 5999)) = token token_a5"
    by (simp add: generateRefreshToken_def demo_defs)
  from refresh_same_second_rejected [OF a b c e] a b c e show ?thesis by simp
qed

text \<open>
  C3 fails on the code. The handler commits the rotation and then awaits the lookup of
  the user inside the same \<open>try\<close>; when that lookup rejects, the \<open>catch\<close> answers 500
  although the transaction has committed: the presented token's row is revoked, the
  replacement row exists, and the caller has received neither new token. (The other
  failure that is not a 401, the 500 of a refresh in the second its token was signed,
  needs no fault of the store at all.)
\<close>

theorem refresh_fails_after_commit:
  assumes "verifyRefreshToken L t (now w) = Inr u"
      and "refreshToken_findUnique d t = Some st"
      and "rt_userId st = u" and "\<not> revoked st"
      and "uuid_token w \<notin> set (map rt_id (refreshTokens d))"
      and "generateRefreshToken L u (now w) \<notin> set (map token (refreshTokens d))"
      and "u \<in> set (map u_id (users d))"
      and "lookup_rejects w"
  shows "response (refresh L w (Some t) d) = (500, Message ''Internal server error'')
       \<and> store (refresh L w (Some t) d)
           = d\<lparr>refreshTokens :=
                 map (\<lambda>r. if rt_id r = rt_id st then r\<lparr>revoked := True\<rparr> else r) (refreshTokens d)
                 @ [\<lparr>rt_id = uuid_token w, token = generateRefreshToken L u (now w), rt_userId = u,
                     expiresAt = now w + 7 * 24 * 60 * 60 * 1000, rt_createdAt = now w,
                     revoked = False\<rparr>]\<rparr>
       \<and> refreshToken_findUnique (store (refresh L w (Some t) d)) t = Some (st\<lparr>revoked := True\<rparr>)"
proof -
  let ?n = "\<lparr>rt_id = uuid_token w, token = generateRefreshToken L u (now w), rt_userId = rt_userId st,
             expiresAt = now w + 7 * 24 * 60 * 60 * 1000, rt_createdAt = now w, revoked = False\<rparr>"
  let ?d1 = "d\<lparr>refreshTokens :=
             map (\<lambda>r. if rt_id r = rt_id st then r\<lparr>revoked := True\<rparr> else r) (refreshTokens d) @ [?n]\<rparr>"
  have rot: "rotate w st (generateRefreshToken L u (now w)) d = Inr ?d1"
    using assms(2,3,5,6,7) by (intro rotate_accepted) simp_all
  have out: "refresh L w (Some t) d = reply 500 (Message ''Internal server error'') ?d1 [d, ?d1, ?d1]"
    by (rule refresh_rotate_lost[OF assms(1-4) rot assms(8)])
  have "find (\<lambda>r. token r = t)
          (revoke_where (\<lambda>r. rt_id r = rt_id st) (refreshTokens d) @ [?n]) = Some (st\<lparr>revoked := True\<rparr>)"
    using assms(2) by (intro find_token_rotated) (simp add: refreshToken_findUnique_def)
  then have f: "refreshToken_findUnique ?d1 t = Some (st\<lparr>revoked := True\<rparr>)"
    by (simp add: refreshToken_findUnique_def revoke_where_def)
  from f assms(3) show ?thesis by (simp add: out reply_def)
qed

theorem refresh_fails_after_commit_witness:
  "verifyRefreshToken toy_lib (token token_a5) (now ((drawn_at 10000)\<lparr>lookup_rejects := True\<rparr>)) = Inr ''u1''
   \<and> refreshToken_findUnique demo_db (token token_a5) = Some token_a5
   \<and> rt_userId token_a5 = ''u1'' \<and> \<not> revoked token_a5
   \<and> lookup_rejects ((drawn_at 10000)\<lparr>lookup_rejects := True\<rparr>)
   \<and> response (refresh toy_lib ((drawn_at 10000)\<lparr>lookup_rejects := True\<rparr>) (Some (token token_a5)) demo_db)
       = (500, Message ''Internal server error'')
   \<and> refreshTokens (store (refresh toy_lib ((drawn_at 10000)\<lparr>lookup_rejects := True\<rparr>)
                              (Some (token token_a5)) demo_db))
       = [token_a0, token_a5\<lparr>revoked := True\<rparr>, token_b0,
          \<lparr>rt_id = ''r9'', token = ''refresh-secret.u1.10'', rt_userId = ''u1'',
           expiresAt = 604810000, rt_createdAt = 10000, revoked = False\<rparr>]"
proof -
  let ?w = "(drawn_at 10000)\<lparr>lookup_rejects := True\<rparr>"
  have a: "verifyRefreshToken toy_lib (token token_a5) (now ?w) = Inr ''u1''"
    by (simp add: verifyRefreshToken_def demo_defs)
  have b: "refreshToken_findUnique demo_db (token token_a5) = Some token_a5"
    by (simp add: refreshToken_findUnique_def demo_defs)
  have c: "rt_userId token_a5 = ''u1''" "\<not> revoked token_a5" by (simp_all add: token_a5_def)
  have f: "uuid_token ?w \<notin> set (map rt_id (refreshTokens demo_db))"
    "generateRefreshToken toy_lib ''u1'' (now ?w) \<notin> set (map token (refreshTokens demo_db))"
    "''u1'' \<in> set (map u_id (users demo_db))"
    by (simp_all add: generateRefreshToken_def demo_defs)
  have l: "lookup_rejects ?w" by simp
  have nt: "generateRefreshToken toy_lib ''u1'' (now ?w) = ''refresh-secret.u1.10''"
    by (simp add: generateRefreshToken_def demo_defs)
  note th = refresh_fails_after_commit [OF a b c f l]
  from th have 1: "response (refresh toy_lib ?w (Some (token token_a5)) demo_db)
       = (500, Message ''Internal server error'')" by blast
  from th have "store (refresh toy_lib ?w (Some (token token_a5)) demo_db)
           = demo_db\<lparr>refreshTokens :=
                 map (\<lambda>r. if rt_id r = rt_id token_a5 then r\<lparr>revoked := True\<rparr> else r) (refreshTokens demo_db)
                 @ [\<lparr>rt_id = uuid_token ?w, token = generateRefreshToken toy_lib ''u1'' (now ?w), rt_userId = ''u1'',
                     expiresAt = now ?w + 7 * 24 * 60 * 60 * 1000, rt_createdAt = now ?w,
                     revoked = False\<rparr>]\<rparr>" by blast
  then have 2: "refreshTokens (store (refresh toy_lib ?w (Some (token token_a5)) demo_db))
       = [token_a0, token_a5\<lparr>revoked := True\<rparr>, token_b0,
          \<lparr>rt_id = ''r9'', token = ''refresh-secret.u1.10'', rt_userId = ''u1'',
           expiresAt = 604810000, rt_createdAt = 10000, revoked = False\<rparr>]"
    unfolding nt by (simp add: demo_db_def token_a0_def token_a5_def token_b0_def drawn_at_def)
  from a b c l 1 2 show ?thesis by simp
qed

subsection \<open>Revocation over runs of the server\<close>

lemma evolves_refl [simp]: "evolves rs rs"
  by (simp add: evolves_def)

lemma evolves_trans: "evolves rs rs' \<Longrightarrow> evolves rs' rs'' \<Longrightarrow> evolves rs rs''"
  unfolding evolves_def
proof (intro conjI allI impI)
  fix i
  assume a: "length rs \<le> length rs' \<and> (\<forall>i<length rs. rs' ! i = rs ! i \<or> rs' ! i = (rs ! i)\<lparr>revoked := True\<rparr>)"
     and b: "length rs' \<le> length rs'' \<and> (\<forall>i<length rs'. rs'' ! i = rs' ! i \<or> rs'' ! i = (rs' ! i)\<lparr>revoked := True\<rparr>)"
     and i: "i < length rs"
  from a i have 1: "rs' ! i = rs ! i \<or> rs' ! i = (rs ! i)\<lparr>revoked := True\<rparr>" by blast
  from a b i have 2: "rs'' ! i = rs' ! i \<or> rs'' ! i = (rs' ! i)\<lparr>revoked := True\<rparr>" by simp
  from 1 2 show "rs'' ! i = rs ! i \<or> rs'' ! i = (rs ! i)\<lparr>revoked := True\<rparr>" by auto
qed auto

lemma evolves_revoke_where_append: "evolves rs (revoke_where wh rs @ new)"
  by (simp add: evolves_def revoke_where_def nth_append)

lemma evolves_append: "evolves rs (rs @ new)"
  by (simp add: evolves_def nth_append)

lemma evolves_revoke_where: "evolves rs (revoke_where wh rs)"
  using evolves_revoke_where_append[of rs wh "[]"] by simp

lemma revoke_where_none [simp]: "revoke_where (\<lambda>r. False) rs = rs"
  by (simp add: revoke_where_def)

lemma grows_same [simp]: "grows rs rs"
  unfolding grows_def by (rule exI[of _ "\<lambda>r. False"], rule exI[of _ "[]"]) simp

lemma grows_new [simp]: "grows rs (rs @ [new_refreshToken w tok uid ex])"
  unfolding grows_def
  by (rule exI[of _ "\<lambda>r. False"], rule exI[of _ "[new_refreshToken w tok uid ex]"])
     (simp add: new_refreshToken_def)

lemma grows_revoke [simp]: "grows rs (revoke_where wh rs)"
  unfolding grows_def by (rule exI[of _ wh], rule exI[of _ "[]"]) simp

lemma grows_revoke_new [simp]: "grows rs (revoke_where wh rs @ [new_refreshToken w tok uid ex])"
  unfolding grows_def
  by (rule exI[of _ wh], rule exI[of _ "[new_refreshToken w tok uid ex]"])
     (simp add: new_refreshToken_def)

lemma grows_evolves: "grows rs rs' \<Longrightarrow> evolves rs rs'"
  by (auto simp: grows_def evolves_revoke_where_append)

lemma grows_created: "grows rs rs' \<Longrightarrow> r \<in> set (drop (length rs) rs') \<Longrightarrow> \<not> revoked r"
  by (auto simp: grows_def list_all_iff)

lemma register_grows: "grows (refreshTokens d) (refreshTokens (store (register L w b d)))"
  by (auto simp: register_def reply_def Let_def user_create_def refreshToken_create_def
           split: option.splits sum.splits prod.splits if_splits)

lemma login_grows: "grows (refreshTokens d) (refreshTokens (store (login L w b d)))"
  by (auto simp: login_def reply_def Let_def refreshToken_create_def
           split: option.splits sum.splits prod.splits if_splits)

lemma refresh_grows_Some: "grows (refreshTokens d) (refreshTokens (store (refresh L w (Some t) d)))"
proof (cases rule: refresh_cases[where L=L and t=t and w=w and d=d])
  case (invalid e)
  then show ?thesis by (simp add: refresh_unverified reply_def)
next
  case (unknown u)
  then show ?thesis by (simp add: refresh_unknown reply_def)
next
  case (foreign u st)
  then show ?thesis by (simp add: refresh_foreign reply_def)
next
  case (reuse u st)
  then show ?thesis by (simp add: refresh_lockout reply_def)
next
  case (rejected u st e)
  then show ?thesis by (simp add: refresh_rotate_fail reply_def)
next
  case (rotated u st d1)
  have s: "store (refresh L w (Some t) d) = d1"
    by (rule refresh_rotated_store[OF rotated])
  from rotated(5) have "grows (refreshTokens d) (refreshTokens d1)"
    by (auto simp: rotate_eq split: if_splits simp del: set_map)
  then show ?thesis by (simp add: s)
qed

lemma refresh_grows: "grows (refreshTokens d) (refreshTokens (store (refresh L w b d)))"
  by (cases b) (simp_all add: refresh_grows_Some, simp add: refresh_def reply_def)

lemma logout_grows: "grows (refreshTokens d) (refreshTokens (store (logout L b d)))"
  by (auto simp: logout_def reply_def Let_def updateMany_revoke split: option.splits)

lemma serve_grows: "grows (refreshTokens d) (refreshTokens (store (serve L q d)))"
  by (cases q) (simp_all add: register_grows login_grows refresh_grows logout_grows)

lemma serve_all_evolves: "evolves (refreshTokens d) (refreshTokens (serve_all L qs d))"
proof (induction qs arbitrary: d)
  case Nil
  then show ?case by simp
next
  case (Cons q qs)
  have "evolves (refreshTokens d) (refreshTokens (store (serve L q d)))"
    by (rule grows_evolves[OF serve_grows])
  from evolves_trans[OF this Cons.IH] show ?case by simp
qed

text \<open>
  C5. Over any list of register, login, refresh and logout requests, every row of the
  refresh-token table keeps its place and is either unchanged or has its flag set; a row
  that is revoked is unchanged, so it is never set back. The rows a single request adds
  (those beyond the old length) are not revoked.
\<close>

theorem revocation_monotone:
  "(\<forall>i<length (refreshTokens d).
      i < length (refreshTokens (serve_all L qs d))
      \<and> (refreshTokens (serve_all L qs d) ! i = refreshTokens d ! i
           \<or> refreshTokens (serve_all L qs d) ! i = (refreshTokens d ! i)\<lparr>revoked := True\<rparr>)
      \<and> (revoked (refreshTokens d ! i) \<longrightarrow>
            refreshTokens (serve_all L qs d) ! i = refreshTokens d ! i))
   \<and> (\<forall>r\<in>set (drop (length (refreshTokens d)) (refreshTokens (store (serve L q d)))). \<not> revoked r)"
proof -
  have "evolves (refreshTokens d) (refreshTokens (serve_all L qs d))"
    by (rule serve_all_evolves)
  then have 1: "\<forall>i<length (refreshTokens d).
      i < length (refreshTokens (serve_all L qs d))
      \<and> (refreshTokens (serve_all L qs d) ! i = refreshTokens d ! i
           \<or> refreshTokens (serve_all L qs d) ! i = (refreshTokens d ! i)\<lparr>revoked := True\<rparr>)
      \<and> (revoked (refreshTokens d ! i) \<longrightarrow>
            refreshTokens (serve_all L qs d) ! i = refreshTokens d ! i)"
    unfolding evolves_def by (auto simp del: serve_all.simps)
  have 2: "\<forall>r\<in>set (drop (length (refreshTokens d)) (refreshTokens (store (serve L q d)))). \<not> revoked r"
    using grows_created[OF serve_grows] by blast
  from 1 2 show ?thesis by blast
qed

theorem revocation_monotone_witness:
  "0 < length (refreshTokens demo_db) \<and> revoked (refreshTokens demo_db ! 0)
   \<and> refreshTokens (serve_all toy_lib
        [Logout (Some (JString (token token_a0))), Refresh (drawn_at 10000) (Some (token token_a5)),
         Login (drawn_at 20000) \<lparr>lb_email = Some ''a@b.com'', lb_password = Some ''secret1''\<rparr>] demo_db) ! 0
       = token_a0
   \<and> list_all (\<lambda>r. \<not> revoked r)
        (drop (length (refreshTokens demo_db))
           (refreshTokens (store (serve toy_lib (Refresh (drawn_at 10000) (Some (token token_a5))) demo_db))))"
proof -
  let ?qs = "[Logout (Some (JString (token token_a0))), Refresh (drawn_at 10000) (Some (token token_a5)),
         Login (drawn_at 20000) \<lparr>lb_email = Some ''a@b.com'', lb_password = Some ''secret1''\<rparr>]"
  let ?q = "Refresh (drawn_at 10000) (Some (token token_a5))"
  have len: "0 < length (refreshTokens demo_db)" by (simp add: demo_db_def)
  have rev: "revoked (refreshTokens demo_db ! 0)" by (simp add: demo_db_def token_a0_def)
  have hd: "refreshTokens demo_db ! 0 = token_a0" by (simp add: demo_db_def)
  note th = revocation_monotone [of demo_db toy_lib ?qs ?q]
  from th len rev have 1: "refreshTokens (serve_all toy_lib ?qs demo_db) ! 0 = refreshTokens demo_db ! 0"
    by blast
  from th have 2: "list_all (\<lambda>r. \<not> revoked r)
        (drop (length (refreshTokens demo_db)) (refreshTokens (store (serve toy_lib ?q demo_db))))"
    unfolding list_all_iff by blast
  from len rev 1 2 show ?thesis unfolding hd by blast
qed

subsection \<open>logout\<close>

text \<open>
  With no token, with a falsy value, or with a string, \<open>logout\<close> answers 200; the users
  and the tasks are unchanged, the refresh-token table is the old one with the flag set on
  the rows whose token is the supplied non-empty string, and a second logout with the
  same argument gives the same outcome as the first.
\<close>

lemma logout_string_or_absent:
  assumes "b = None \<or> (\<exists>t. b = Some (JString t))"
  shows "response (logout L b d) = (200, Message ''Logged out successfully'')
   \<and> users (store (logout L b d)) = users d
   \<and> tasks (store (logout L b d)) = tasks d
   \<and> refreshTokens (store (logout L b d))
       = map (\<lambda>r. if b = Some (JString (token r)) \<and> token r \<noteq> [] then r\<lparr>revoked := True\<rparr> else r)
           (refreshTokens d)
   \<and> logout L b (store (logout L b d)) = logout L b d"
proof (cases b)
  case None
  then show ?thesis by (simp add: logout_def reply_def map_idI)
next
  case (Some v)
  with assms obtain t where v: "v = JString t" by auto
  show ?thesis
  proof (cases "t = []")
    case True
    have "map (\<lambda>r. if Some (JString []) = Some (JString (token r)) \<and> token r \<noteq> []
                    then r\<lparr>revoked := True\<rparr> else r) (refreshTokens d)
          = refreshTokens d"
      by (rule map_idI) auto
    with Some v True show ?thesis by (simp add: logout_def truthy_def reply_def)
  next
    case False
    have eq: "map (\<lambda>r. if Some (JString t) = Some (JString (token r)) \<and> token r \<noteq> []
                        then r\<lparr>revoked := True\<rparr> else r) (refreshTokens d)
          = revoke_where (\<lambda>r. token r = t) (refreshTokens d)"
      using False by (auto simp: revoke_where_def)
    have idem: "revoke_where (\<lambda>r. token r = t) (revoke_where (\<lambda>r. token r = t) (refreshTokens d))
          = revoke_where (\<lambda>r. token r = t) (refreshTokens d)"
      by (simp add: revoke_where_def)
    from Some v False eq idem show ?thesis
      by (simp add: logout_def truthy_def where_token_def reply_def Let_def updateMany_revoke)
  qed
qed

text \<open>
  C8 fails on the code. \<open>logout\<close> hands \<open>req.body.refreshToken\<close> to \<open>updateMany\<close>
  without the schema that \<open>refresh\<close> applies to the same field. A number is refused by
  Prisma and the \<open>catch\<close> answers 500, for every library and every store. An object is
  read as a filter: with \<open>{not: ''x''}\<close> the answer is 200 and every row whose token is
  not \<open>x\<close> is revoked, here the rows of both users, none of which matches a supplied
  token string.
\<close>

theorem logout_unvalidated_argument:
  "response (logout L (Some (JNumber 123)) d) = (500, Message ''Internal server error'')
   \<and> store (logout L (Some (JNumber 123)) d) = d
   \<and> response (logout toy_lib (Some (JObject [(''not'', JString ''x'')])) demo_db)
       = (200, Message ''Logged out successfully'')
   \<and> refreshTokens (store (logout toy_lib (Some (JObject [(''not'', JString ''x'')])) demo_db))
       = [token_a0, token_a5\<lparr>revoked := True\<rparr>, token_b0\<lparr>revoked := True\<rparr>]"
proof -
  have 1: "logout L (Some (JNumber 123)) d = reply 500 (Message ''Internal server error'') d []"
    by (simp add: logout_def truthy_def where_token_def)
  have 2: "logout toy_lib (Some (JObject [(''not'', JString ''x'')])) demo_db
       = reply 200 (Message ''Logged out successfully'')
           (demo_db\<lparr>refreshTokens := [token_a0, token_a5\<lparr>revoked := True\<rparr>, token_b0\<lparr>revoked := True\<rparr>]\<rparr>)
           [demo_db\<lparr>refreshTokens := [token_a0, token_a5\<lparr>revoked := True\<rparr>, token_b0\<lparr>revoked := True\<rparr>]\<rparr>]"
    by (simp add: logout_def truthy_def where_token_def refreshToken_updateMany_def set_revoked_def
          Let_def demo_defs)
  show ?thesis by (simp add: 1 2 reply_def)
qed

subsection \<open>toggleTask\<close>

lemma newStatus_simps [simp]:
  "newStatus PENDING = IN_PROGRESS" "newStatus IN_PROGRESS = COMPLETED" "newStatus COMPLETED = PENDING"
  by (simp_all add: newStatus_def statusCycle_def)

lemma newStatus3: "newStatus (newStatus (newStatus s)) = s"
  by (cases s) simp_all

lemma bij_newStatus: "bij newStatus"
  by (rule o_bij[where g = "newStatus \<circ> newStatus"]) (auto simp: newStatus3)

lemma find_task_map:
  "find (\<lambda>t. t_id t = i \<and> t_userId t = uid) ts = Some t \<Longrightarrow>
   find (\<lambda>t. t_id t = i \<and> t_userId t = uid)
        (map (\<lambda>t. if t_id t = i then t\<lparr>status := s, t_updatedAt := n\<rparr> else t) ts)
    = Some (t\<lparr>status := s, t_updatedAt := n\<rparr>)"
  by (induction ts) (auto split: if_splits)

lemma find_task_id:
  "find (\<lambda>t. t_id t = i \<and> t_userId t = uid) ts = Some t \<Longrightarrow> \<exists>t'. find (\<lambda>t. t_id t = i) ts = Some t'"
  by (induction ts) (auto split: if_splits)

lemma toggleTask_found:
  assumes "task_findFirst d i uid = Some t"
  shows "fst (response (toggleTask w uid i d)) = 200
       \<and> task_findFirst (store (toggleTask w uid i d)) i uid
           = Some (t\<lparr>status := newStatus (status t), t_updatedAt := now w\<rparr>)"
  using assms find_task_id[of i uid "tasks d" t]
  by (auto simp: toggleTask_def task_update_def reply_def task_findFirst_def find_task_map
           split: option.splits)

text \<open>
  C9. The toggle maps PENDING to IN_PROGRESS, IN_PROGRESS to COMPLETED and COMPLETED to
  PENDING; applied three times it is the identity, and it is a bijection on the statuses.
  For a task that \<open>toggleTask\<close> finds for its owner, one call moves the stored status
  one step along the cycle and three calls bring it back to the status it had.
\<close>

theorem toggle_three_cycle:
  "newStatus PENDING = IN_PROGRESS \<and> newStatus IN_PROGRESS = COMPLETED
   \<and> newStatus COMPLETED = PENDING
   \<and> newStatus (newStatus (newStatus s)) = s
   \<and> bij newStatus
   \<and> (task_findFirst d i uid = Some t \<longrightarrow>
        task_findFirst (store (toggleTask w1 uid i d)) i uid
          = Some (t\<lparr>status := newStatus (status t), t_updatedAt := now w1\<rparr>)
        \<and> (\<exists>t'. task_findFirst
                   (store (toggleTask w3 uid i (store (toggleTask w2 uid i (store (toggleTask w1 uid i d))))))
                   i uid = Some t'
                 \<and> status t' = status t))"
proof -
  have three: "\<exists>t'. task_findFirst
                   (store (toggleTask w3 uid i (store (toggleTask w2 uid i (store (toggleTask w1 uid i d))))))
                   i uid = Some t' \<and> status t' = status t"
    and one: "task_findFirst (store (toggleTask w1 uid i d)) i uid
          = Some (t\<lparr>status := newStatus (status t), t_updatedAt := now w1\<rparr>)"
    if found: "task_findFirst d i uid = Some t"
  proof -
    let ?d1 = "store (toggleTask w1 uid i d)"
    let ?d2 = "store (toggleTask w2 uid i ?d1)"
    from toggleTask_found[OF found, of w1]
    show 1: "task_findFirst ?d1 i uid = Some (t\<lparr>status := newStatus (status t), t_updatedAt := now w1\<rparr>)"
      by simp
    from toggleTask_found[OF 1, of w2]
    have 2: "task_findFirst ?d2 i uid
               = Some (t\<lparr>status := newStatus (newStatus (status t)), t_updatedAt := now w2\<rparr>)"
      by simp
    from toggleTask_found[OF 2, of w3]
    show "\<exists>t'. task_findFirst (store (toggleTask w3 uid i ?d2)) i uid = Some t' \<and> status t' = status t"
      by (simp add: newStatus3)
  qed
  then show ?thesis by (simp add: newStatus3 bij_newStatus)
qed

theorem toggle_three_cycle_witness:
  "task_findFirst demo_db ''t1'' ''u1'' = Some task_1
   \<and> task_findFirst (store (toggleTask (drawn_at 1) ''u1'' ''t1'' demo_db)) ''t1'' ''u1''
       = Some (task_1\<lparr>status := IN_PROGRESS, t_updatedAt := 1\<rparr>)
   \<and> (\<exists>t'. task_findFirst
              (store (toggleTask (drawn_at 3) ''u1'' ''t1''
                 (store (toggleTask (drawn_at 2) ''u1'' ''t1'' (store (toggleTask (drawn_at 1) ''u1'' ''t1'' demo_db))))))
              ''t1'' ''u1'' = Some t'
            \<and> status t' = PENDING)"
proof -
  have a: "task_findFirst demo_db ''t1'' ''u1'' = Some task_1"
    by (simp add: task_findFirst_def demo_db_def task_1_def)
  have s: "status task_1 = PENDING" by (simp add: task_1_def)
  from toggle_three_cycle [of PENDING demo_db "''t1''" "''u1''" task_1 "drawn_at 1" "drawn_at 3" "drawn_at 2"] a s
  show ?thesis by (simp add: drawn_at_def)
qed

section \<open>Properties of the refresh coordinator\<close>

lemmas client_defs = onResponseError_def onRefreshResolved_def onRefreshRejected_def
  processQueue_def apiClient_def clearTokens_def initial_def bearer_def Let_def

lemma single_flight_initial: "single_flight (initial stored)"
  by (simp add: single_flight_def initial_def)

lemma single_flight_step: "single_flight c \<Longrightarrow> single_flight (fst (step c e))"
  by (cases e)
     (auto simp: single_flight_def onResponseError_def onRefreshResolved_def onRefreshRejected_def
        processQueue_def clearTokens_def Let_def split: option.splits if_splits)

lemma single_flight_run: "single_flight c \<Longrightarrow> single_flight (fst (run c es))"
proof (induction es arbitrary: c)
  case Nil
  then show ?case by simp
next
  case (Cons e es)
  from Cons.IH[OF single_flight_step[OF Cons.prems, of e]]
  show ?case by (simp add: split_beta Let_def)
qed

lemma queued_while_refreshing:
  "isRefreshing c \<Longrightarrow> \<forall>cfg\<in>set cfgs. \<not> retry cfg \<Longrightarrow>
   run c (map (ResponseError (Some 401)) cfgs) = (c\<lparr>failedQueue := failedQueue c @ cfgs\<rparr>, [])"
proof (induction cfgs arbitrary: c)
  case Nil
  then show ?case by simp
next
  case (Cons a cfgs)
  let ?c1 = "c\<lparr>failedQueue := failedQueue c @ [a]\<rparr>"
  have s: "step c (ResponseError (Some 401) a) = (?c1, [])"
    using Cons.prems by (simp add: onResponseError_def)
  have "run ?c1 (map (ResponseError (Some 401)) cfgs) = (?c1\<lparr>failedQueue := failedQueue ?c1 @ cfgs\<rparr>, [])"
    using Cons.prems by (intro Cons.IH) simp_all
  then show ?case using s by simp
qed

lemma no_refresh_while_refreshing:
  "isRefreshing c \<Longrightarrow>
     PostRefresh t \<notin> set (snd (run c (map (ResponseError st) cfgs)))
     \<and> isRefreshing (fst (run c (map (ResponseError st) cfgs)))"
proof (induction cfgs arbitrary: c)
  case Nil
  then show ?case by simp
next
  case (Cons a cfgs)
  let ?c1 = "fst (step c (ResponseError st a))"
  have 1: "isRefreshing ?c1" "PostRefresh t \<notin> set (snd (step c (ResponseError st a)))"
    using Cons.prems by (auto simp: onResponseError_def)
  from Cons.IH[OF 1(1)] 1 show ?case by (simp add: split_beta Let_def)
qed

lemma drain_queue:
  "inflight c = [(orig, rt)] \<Longrightarrow>
   step c (RefreshResolved 0 tk) =
     (c\<lparr>accessToken := Some tk, failedQueue := [], isRefreshing := False, inflight := []\<rparr>,
      Request (orig\<lparr>authorization := Some (bearer tk)\<rparr>) #
      map (\<lambda>q. Request (q\<lparr>authorization := Some (bearer tk)\<rparr>)) (failedQueue c))"
  by (simp add: onRefreshResolved_def processQueue_def apiClient_def Let_def)

text \<open>
  C6. In every state the client reaches from its initial state, by any list of events
  in any order, at most one refresh call is in flight. While one is in flight, responses
  that fail with 401 issue no refresh call, whatever the requests; those of requests not
  yet retried issue nothing at all and are appended to the queue in their order, and when
  the refresh call resolves with a token, the request that started it and every queued
  request are sent again with that token, the queue is emptied and the flag reset.
\<close>

theorem single_refresh_in_flight:
  assumes "c = fst (run (initial stored) es)"
  shows "length (inflight c) \<le> 1
       \<and> (inflight c \<noteq> [] \<longrightarrow>
            (\<forall>t. PostRefresh t \<notin> set (snd (run c (map (ResponseError (Some 401)) cfgs))))
          \<and> ((\<forall>cfg\<in>set cfgs. \<not> retry cfg) \<longrightarrow>
               run c (map (ResponseError (Some 401)) cfgs)
                 = (c\<lparr>failedQueue := failedQueue c @ cfgs\<rparr>, [])
             \<and> step (c\<lparr>failedQueue := failedQueue c @ cfgs\<rparr>) (RefreshResolved 0 tk)
                 = (c\<lparr>accessToken := Some tk, failedQueue := [], isRefreshing := False, inflight := []\<rparr>,
                    Request ((fst (hd (inflight c)))\<lparr>authorization := Some (bearer tk)\<rparr>) #
                    map (\<lambda>q. Request (q\<lparr>authorization := Some (bearer tk)\<rparr>)) (failedQueue c @ cfgs))))"
proof -
  have sf: "single_flight c"
    unfolding assms by (rule single_flight_run[OF single_flight_initial])
  then have len: "length (inflight c) \<le> 1" by (simp add: single_flight_def)
  have rest: "(\<forall>t. PostRefresh t \<notin> set (snd (run c (map (ResponseError (Some 401)) cfgs))))
          \<and> ((\<forall>cfg\<in>set cfgs. \<not> retry cfg) \<longrightarrow>
               run c (map (ResponseError (Some 401)) cfgs)
                 = (c\<lparr>failedQueue := failedQueue c @ cfgs\<rparr>, [])
             \<and> step (c\<lparr>failedQueue := failedQueue c @ cfgs\<rparr>) (RefreshResolved 0 tk)
                 = (c\<lparr>accessToken := Some tk, failedQueue := [], isRefreshing := False, inflight := []\<rparr>,
                    Request ((fst (hd (inflight c)))\<lparr>authorization := Some (bearer tk)\<rparr>) #
                    map (\<lambda>q. Request (q\<lparr>authorization := Some (bearer tk)\<rparr>)) (failedQueue c @ cfgs)))"
    if busy: "inflight c \<noteq> []"
  proof -
    from sf busy have r: "isRefreshing c" by (simp add: single_flight_def)
    from len busy obtain orig rt where one: "inflight c = [(orig, rt)]"
      by (cases "inflight c") auto
    have a: "\<forall>t. PostRefresh t \<notin> set (snd (run c (map (ResponseError (Some 401)) cfgs)))"
      using no_refresh_while_refreshing[OF r] by blast
    have b: "run c (map (ResponseError (Some 401)) cfgs) = (c\<lparr>failedQueue := failedQueue c @ cfgs\<rparr>, [])"
      if "\<forall>cfg\<in>set cfgs. \<not> retry cfg"
      using queued_while_refreshing[OF r that] .
    have "inflight (c\<lparr>failedQueue := failedQueue c @ cfgs\<rparr>) = [(orig, rt)]" using one by simp
    from drain_queue[OF this, of tk]
    have d: "step (c\<lparr>failedQueue := failedQueue c @ cfgs\<rparr>) (RefreshResolved 0 tk)
                 = (c\<lparr>accessToken := Some tk, failedQueue := [], isRefreshing := False, inflight := []\<rparr>,
                    Request ((fst (hd (inflight c)))\<lparr>authorization := Some (bearer tk)\<rparr>) #
                    map (\<lambda>q. Request (q\<lparr>authorization := Some (bearer tk)\<rparr>)) (failedQueue c @ cfgs))"
      using one by simp
    from a b d show ?thesis by blast
  qed
  from len rest show ?thesis by blast
qed

lemma busy_client_eq:
  "busy_client = \<lparr>accessToken = None, storedRefreshToken = Some ''rt'', isRefreshing = True,
      failedQueue = [], inflight = [(req_a\<lparr>retry := True\<rparr>, ''rt'')], location = None\<rparr>"
  by (simp add: busy_client_def client_defs req_a_def)

theorem single_refresh_in_flight_witness:
  "busy_client = fst (run (initial (Some ''rt'')) [ResponseError (Some 401) req_a])
   \<and> snd (run (initial (Some ''rt'')) [ResponseError (Some 401) req_a]) = [PostRefresh ''rt'']
   \<and> inflight busy_client = [(req_a\<lparr>retry := True\<rparr>, ''rt'')]
   \<and> run busy_client (map (ResponseError (Some 401)) [req_b, req_c])
       = (busy_client\<lparr>failedQueue := [req_b, req_c]\<rparr>, [])
   \<and> snd (step (busy_client\<lparr>failedQueue := [req_b, req_c]\<rparr>) (RefreshResolved 0 ''t1''))
       = [Request (req_a\<lparr>retry := True, authorization := Some ''Bearer t1''\<rparr>),
          Request (req_b\<lparr>authorization := Some ''Bearer t1''\<rparr>),
          Request (req_c\<lparr>authorization := Some ''Bearer t1''\<rparr>)]"
proof -
  have a: "busy_client = fst (run (initial (Some ''rt'')) [ResponseError (Some 401) req_a])"
    by (simp add: busy_client_def)
  have p: "snd (run (initial (Some ''rt'')) [ResponseError (Some 401) req_a]) = [PostRefresh ''rt'']"
    by (simp add: client_defs req_a_def)
  have i: "inflight busy_client = [(req_a\<lparr>retry := True\<rparr>, ''rt'')]"
    by (simp add: busy_client_eq)
  have q: "failedQueue busy_client = []" by (simp add: busy_client_eq)
  have n: "\<forall>cfg\<in>set [req_b, req_c]. \<not> retry cfg" by (simp add: req_b_def req_c_def)
  note th = single_refresh_in_flight [OF a, of "[req_b, req_c]" "''t1''"]
  from th i n have 1: "run busy_client (map (ResponseError (Some 401)) [req_b, req_c])
       = (busy_client\<lparr>failedQueue := failedQueue busy_client @ [req_b, req_c]\<rparr>, [])"
    by (metis list.distinct(1))
  from th i n have 2: "step (busy_client\<lparr>failedQueue := failedQueue busy_client @ [req_b, req_c]\<rparr>) (RefreshResolved 0 ''t1'')
                 = (busy_client\<lparr>accessToken := Some ''t1'', failedQueue := [], isRefreshing := False, inflight := []\<rparr>,
                    Request ((fst (hd (inflight busy_client)))\<lparr>authorization := Some (bearer ''t1'')\<rparr>) #
                    map (\<lambda>q. Request (q\<lparr>authorization := Some (bearer ''t1'')\<rparr>)) (failedQueue busy_client @ [req_b, req_c]))"
    by (metis list.distinct(1))
  from 2 have 3: "snd (step (busy_client\<lparr>failedQueue := [req_b, req_c]\<rparr>) (RefreshResolved 0 ''t1''))
       = [Request (req_a\<lparr>retry := True, authorization := Some ''Bearer t1''\<rparr>),
          Request (req_b\<lparr>authorization := Some ''Bearer t1''\<rparr>),
          Request (req_c\<lparr>authorization := Some ''Bearer t1''\<rparr>)]"
    unfolding q i by (simp add: bearer_def)
  from 1 have 4: "run busy_client (map (ResponseError (Some 401)) [req_b, req_c])
       = (busy_client\<lparr>failedQueue := [req_b, req_c]\<rparr>, [])"
    unfolding q by simp
  from a p i 4 3 show ?thesis by blast
qed

text \<open>
  C7 fails on the code. The branch that queues a request returns before
  \<open>originalRequest._retry = true\<close>, so only the request that started the refresh gets
  the flag. Here \<open>req_a\<close> starts a refresh and \<open>req_b\<close> is queued; after the refresh
  \<open>req_b\<close> is replayed with \<open>retry = False\<close>, and when the replay fails with 401 again
  it starts a second refresh call.
\<close>

theorem queued_replay_refreshes_again:
  "run (initial (Some ''rt''))
     [ResponseError (Some 401) req_a,
      ResponseError (Some 401) req_b,
      RefreshResolved 0 ''t1'',
      ResponseError (Some 401) (req_b\<lparr>authorization := Some ''Bearer t1''\<rparr>)]
   = (\<lparr>accessToken = Some ''t1'', storedRefreshToken = Some ''rt'', isRefreshing = True,
       failedQueue = [],
       inflight = [(\<lparr>req = 2, retry = True, authorization = Some ''Bearer t1''\<rparr>, ''rt'')],
       location = None\<rparr>,
      [PostRefresh ''rt'',
       Request \<lparr>req = 1, retry = True, authorization = Some ''Bearer t1''\<rparr>,
       Request \<lparr>req = 2, retry = False, authorization = Some ''Bearer t1''\<rparr>,
       PostRefresh ''rt''])"
  by (simp add: client_defs req_a_def req_b_def)

end
